theory Spec2Isabelle
  imports Main
begin

section \<open>Strings and the POSIX path module\<close>

text \<open>
  A JavaScript string is modelled as a \<open>string\<close> (a list of characters); \<open>slice n\<close> is
  \<open>drop n\<close> and \<open>startsWith\<close> is the prefix test below. The functions \<open>path.join\<close> and
  \<open>path.basename\<close> belong to the runtime, not to the extension; they are modelled after
  the POSIX flavour of the runtime's path module, segment by segment.
\<close>

fun startsWith :: "string \<Rightarrow> string \<Rightarrow> bool" where
  "startsWith s [] = True"
| "startsWith [] (p # ps) = False"
| "startsWith (c # cs) (p # ps) = (c = p \<and> startsWith cs ps)"

text \<open>The pieces of a string between the occurrences of a separator.\<close>

fun split_on :: "char \<Rightarrow> string \<Rightarrow> string list" where
  "split_on c [] = [[]]"
| "split_on c (x # xs) =
     (if x = c then [] # split_on c xs
      else (case split_on c xs of [] \<Rightarrow> [[x]] | s # ss \<Rightarrow> (x # s) # ss))"

fun join_with :: "char \<Rightarrow> string list \<Rightarrow> string" where
  "join_with c [] = []"
| "join_with c [s] = s"
| "join_with c (s # t # ss) = s @ c # join_with c (t # ss)"

text \<open>
  \<open>normalizeString\<close>: empty and \<open>.\<close> segments are dropped; \<open>..\<close> removes the segment
  before it unless there is none or it is itself \<open>..\<close>, in which case it is kept only
  when the path may climb above its root. The accumulator holds the segments kept so far,
  the last one first.
\<close>

fun normalizeSegments :: "bool \<Rightarrow> string list \<Rightarrow> string list \<Rightarrow> string list" where
  "normalizeSegments allowAboveRoot acc [] = rev acc"
| "normalizeSegments allowAboveRoot acc (s # ss) =
     (if s = [] \<or> s = ''.'' then normalizeSegments allowAboveRoot acc ss
      else if s = ''..'' then
        (case acc of
           [] \<Rightarrow> normalizeSegments allowAboveRoot (if allowAboveRoot then [''..''] else []) ss
         | a # as \<Rightarrow>
             if a = ''..''
             then normalizeSegments allowAboveRoot (if allowAboveRoot then ''..'' # acc else acc) ss
             else normalizeSegments allowAboveRoot as ss)
      else normalizeSegments allowAboveRoot (s # acc) ss)"

definition normalizeString :: "string \<Rightarrow> bool \<Rightarrow> string" where
  "normalizeString p allowAboveRoot =
     join_with CHR ''/'' (normalizeSegments allowAboveRoot [] (split_on CHR ''/'' p))"

definition path_normalize :: "string \<Rightarrow> string" where
  "path_normalize p =
     (if p = [] then ''.''
      else
        let isAbsolute = (hd p = CHR ''/'');
            trailingSeparator = (last p = CHR ''/'');
            q = normalizeString p (\<not> isAbsolute)
        in if q = [] then (if isAbsolute then ''/'' else if trailingSeparator then ''./'' else ''.'')
           else (if isAbsolute then ''/'' else []) @ q @ (if trailingSeparator then ''/'' else []))"

text \<open>\<open>path.join\<close>: the non-empty arguments, joined by \<open>/\<close>, then normalised.\<close>

definition path_join :: "string list \<Rightarrow> string" where
  "path_join args =
     (let parts = filter (\<lambda>a. a \<noteq> []) args
      in if parts = [] then ''.'' else path_normalize (join_with CHR ''/'' parts))"

text \<open>
  \<open>path.basename\<close>: the last segment of the path, trailing separators ignored.
\<close>

definition path_basename :: "string \<Rightarrow> string" where
  "path_basename p =
     rev (takeWhile (\<lambda>c. c \<noteq> CHR ''/'') (dropWhile (\<lambda>c. c = CHR ''/'') (rev p)))"

section \<open>Home-directory expansion and its display form\<close>

text \<open>
  \<open>os.homedir()\<close> is a value of the machine the extension runs on; it is the first
  argument of both functions.
\<close>

definition resolvePath :: "string \<Rightarrow> string \<Rightarrow> string" where
  "resolvePath homedir inputPath =
     (if startsWith inputPath ''~'' then path_join [homedir, drop 1 inputPath]
      else inputPath)"

definition formatDestinationForDisplay :: "string \<Rightarrow> string \<Rightarrow> string" where
  "formatDestinationForDisplay homedir destPath =
     (if startsWith destPath homedir then ''~'' @ drop (length homedir) destPath
      else destPath)"

section \<open>The host: file system, dialogs and messages\<close>

text \<open>
  A \<open>vscode.Uri\<close> of the \<open>file\<close> scheme without an authority is represented by its
  path, which on a POSIX machine is also its \<open>fsPath\<close>; \<open>Uri.joinPath\<close> is then
  \<open>path_join\<close>. \<open>Uri.file\<close> makes the path of the uri start with a separator.
\<close>

type_synonym uri = string

definition uriFile :: "string \<Rightarrow> uri" where
  "uriFile p = (if p = [] then ''/'' else if hd p = CHR ''/'' then p else CHR ''/'' # p)"

text \<open>
  Every call into the host is recorded, oldest first. \<open>Copy\<close> carries the value of its
  \<open>overwrite\<close> option; \<open>ShowWarningMessage\<close> carries the text, the \<open>modal\<close> flag and the
  buttons offered.
\<close>

datatype event =
    Stat uri
  | CreateDirectory uri
  | Copy uri uri bool
  | ShowOpenDialog
  | ShowWarningMessage string bool "string list"
  | ShowErrorMessage string
  | ShowInformationMessage string

text \<open>
  The host is a parameter. Its file system has an abstract state \<open>'fs\<close>: \<open>fs_stat\<close>
  only reads it (\<open>True\<close> when the call resolves, \<open>False\<close> when it throws), while
  \<open>fs_createDirectory\<close> and \<open>fs_copy\<close> return the state they leave behind together with
  \<open>Some reason\<close> when they throw, \<open>reason\<close> being the thrown value as a template
  literal prints it. \<open>destinationPath\<close> is the setting \<open>copyTo.destinationPath\<close> and
  \<open>openDialogResult\<close> is what the folder picker resolves to.
\<close>

record 'fs host =
  os_homedir :: string
  destinationPath :: string
  openDialogResult :: "uri list option"
  fs_stat :: "'fs \<Rightarrow> uri \<Rightarrow> bool"
  fs_createDirectory :: "'fs \<Rightarrow> uri \<Rightarrow> string option \<times> 'fs"
  fs_copy :: "'fs \<Rightarrow> uri \<Rightarrow> uri \<Rightarrow> bool \<Rightarrow> string option \<times> 'fs"

text \<open>
  The state a run threads through: the file system, the user's answers to the modal
  dialogs still to come (the label of the button pressed, or \<open>None\<close> for a dismissed
  dialog), and the record of host calls.
\<close>

record 'fs world =
  fs :: 'fs
  answers :: "string option list"
  trace :: "event list"

definition emit :: "event \<Rightarrow> 'fs world \<Rightarrow> 'fs world" where
  "emit e w = w\<lparr>trace := trace w @ [e]\<rparr>"

text \<open>A counter inside a template literal: the decimal digits of a natural number.\<close>

definition digit :: "nat \<Rightarrow> char" where
  "digit d = ''0123456789'' ! d"

function string_of_nat :: "nat \<Rightarrow> string" where
  "string_of_nat n =
     (if n < 10 then [digit n] else string_of_nat (n div 10) @ [digit (n mod 10)])"
  by pat_completeness auto
termination
  by (relation "measure id") auto

declare string_of_nat.simps [simp del]

definition dquote :: char where
  "dquote = CHR 0x22"

section \<open>The extension\<close>

definition getDestinationUri :: "'fs host \<Rightarrow> 'fs world \<Rightarrow> uri option \<times> 'fs world" where
  "getDestinationUri H w =
     (let configuredPath = destinationPath H
      in if configuredPath \<noteq> []
         then (let resolvedPath = resolvePath (os_homedir H) configuredPath
               in (Some (uriFile resolvedPath), w))
         else
           let w1 = emit ShowOpenDialog w
           in (case openDialogResult H of
                 Some (first # others) \<Rightarrow> (Some first, w1)
               | _ \<Rightarrow> (None, w1)))"

definition ensureDestinationDirectory ::
  "'fs host \<Rightarrow> uri \<Rightarrow> 'fs world \<Rightarrow> bool \<times> 'fs world" where
  "ensureDestinationDirectory H destUri w =
     (let w1 = emit (Stat destUri) w
      in if fs_stat H (fs w1) destUri then (True, w1)
         else
           let w2 = emit (CreateDirectory destUri) w1
           in (case fs_createDirectory H (fs w2) destUri of
                 (None, s) \<Rightarrow> (True, w2\<lparr>fs := s\<rparr>)
               | (Some createError, s) \<Rightarrow>
                   (False,
                    emit (ShowErrorMessage
                            (''Failed to create destination directory: '' @ createError))
                         (w2\<lparr>fs := s\<rparr>))))"

definition targetExists :: "'fs host \<Rightarrow> uri \<Rightarrow> 'fs world \<Rightarrow> bool \<times> 'fs world" where
  "targetExists H targetUri w = (fs_stat H (fs w) targetUri, emit (Stat targetUri) w)"

datatype OverwriteAction = Overwrite | Skip | Cancel

definition overwriteMessage :: "string \<Rightarrow> string \<Rightarrow> string" where
  "overwriteMessage fileName destPath =
     [dquote] @ fileName @ [dquote] @ '' already exists in '' @ destPath
       @ ''. What would you like to do?''"

definition promptOverwrite ::
  "string \<Rightarrow> string \<Rightarrow> 'fs world \<Rightarrow> OverwriteAction \<times> 'fs world" where
  "promptOverwrite fileName destPath w =
     (let w1 = emit (ShowWarningMessage (overwriteMessage fileName destPath) True
                       [''Overwrite'', ''Skip'', ''Cancel'']) w;
          (result, w2) = (case answers w1 of
                            [] \<Rightarrow> (None, w1)
                          | a # rest \<Rightarrow> (a, w1\<lparr>answers := rest\<rparr>))
      in (if result = Some ''Overwrite'' then Overwrite
          else if result = Some ''Skip'' then Skip
          else Cancel, w2))"

datatype CopyResult = Success | Skipped | Cancelled

text \<open>The \<open>try\<close> block that ends \<open>copySingleItem\<close>.\<close>

definition tryCopy ::
  "'fs host \<Rightarrow> uri \<Rightarrow> uri \<Rightarrow> string \<Rightarrow> 'fs world \<Rightarrow> CopyResult \<times> 'fs world" where
  "tryCopy H sourceUri targetUri fileName w =
     (let w1 = emit (Copy sourceUri targetUri True) w
      in (case fs_copy H (fs w1) sourceUri targetUri True of
            (None, s) \<Rightarrow> (Success, w1\<lparr>fs := s\<rparr>)
          | (Some error, s) \<Rightarrow>
              (Skipped,
               emit (ShowErrorMessage
                       (''Failed to copy '' @ [dquote] @ fileName @ [dquote] @ '': '' @ error))
                    (w1\<lparr>fs := s\<rparr>))))"

definition copySingleItem ::
  "'fs host \<Rightarrow> uri \<Rightarrow> uri \<Rightarrow> 'fs world \<Rightarrow> CopyResult \<times> 'fs world" where
  "copySingleItem H sourceUri destUri w =
     (let fileName = path_basename sourceUri;
          targetUri = path_join [destUri, fileName];
          (exists, w1) = targetExists H targetUri w
      in if exists then
           (case promptOverwrite fileName destUri w1 of
              (Cancel, w2) \<Rightarrow> (Cancelled, w2)
            | (Skip, w2) \<Rightarrow> (Skipped, w2)
            | (Overwrite, w2) \<Rightarrow> tryCopy H sourceUri targetUri fileName w2)
         else tryCopy H sourceUri targetUri fileName w1)"

definition cancelledMessage :: "nat \<Rightarrow> nat \<Rightarrow> string" where
  "cancelledMessage copiedCount skippedCount =
     ''Cancelled. Copied '' @ string_of_nat copiedCount @ '' item(s), skipped ''
       @ string_of_nat skippedCount @ ''.''"

text \<open>
  The \<open>for\<close> loop of \<open>copyToDestination\<close> with its two counters. \<open>None\<close> is the
  \<open>return\<close> inside the loop; \<open>Some (copiedCount, skippedCount)\<close> is the loop running
  to its end.
\<close>

fun copyLoop ::
  "'fs host \<Rightarrow> uri \<Rightarrow> uri list \<Rightarrow> nat \<Rightarrow> nat \<Rightarrow> 'fs world \<Rightarrow> (nat \<times> nat) option \<times> 'fs world" where
  "copyLoop H destUri [] copiedCount skippedCount w = (Some (copiedCount, skippedCount), w)"
| "copyLoop H destUri (uri # uris) copiedCount skippedCount w =
     (case copySingleItem H uri destUri w of
        (Success, w1) \<Rightarrow> copyLoop H destUri uris (copiedCount + 1) skippedCount w1
      | (Skipped, w1) \<Rightarrow> copyLoop H destUri uris copiedCount (skippedCount + 1) w1
      | (Cancelled, w1) \<Rightarrow>
          (None, emit (ShowInformationMessage (cancelledMessage copiedCount skippedCount)) w1))"

definition copiedMessage :: "nat \<Rightarrow> string \<Rightarrow> string" where
  "copiedMessage copiedCount displayPath =
     ''Copied '' @ string_of_nat copiedCount @ '' item(s) to '' @ displayPath @ ''.''"

definition copiedSkippedMessage :: "nat \<Rightarrow> string \<Rightarrow> nat \<Rightarrow> string" where
  "copiedSkippedMessage copiedCount displayPath skippedCount =
     ''Copied '' @ string_of_nat copiedCount @ '' item(s) to '' @ displayPath
       @ ''. Skipped '' @ string_of_nat skippedCount @ ''.''"

definition allSkippedMessage :: "nat \<Rightarrow> string" where
  "allSkippedMessage skippedCount =
     ''All '' @ string_of_nat skippedCount @ '' item(s) were skipped.''"

definition copyToDestination :: "'fs host \<Rightarrow> uri list \<Rightarrow> 'fs world \<Rightarrow> 'fs world" where
  "copyToDestination H uris w =
     (case getDestinationUri H w of
        (None, w1) \<Rightarrow> w1
      | (Some destUri, w1) \<Rightarrow>
          (case ensureDestinationDirectory H destUri w1 of
             (ensured, w2) \<Rightarrow>
               if \<not> ensured then w2
               else
                 let displayPath = formatDestinationForDisplay (os_homedir H) destUri
                 in (case copyLoop H destUri uris 0 0 w2 of
                       (None, w3) \<Rightarrow> w3
                     | (Some (copiedCount, skippedCount), w3) \<Rightarrow>
                         if copiedCount > 0 then
                           emit (ShowInformationMessage
                                   (if skippedCount > 0
                                    then copiedSkippedMessage copiedCount displayPath skippedCount
                                    else copiedMessage copiedCount displayPath)) w3
                         else if skippedCount > 0 then
                           emit (ShowInformationMessage (allSkippedMessage skippedCount)) w3
                         else w3)))"

text \<open>
  The command handler registered by \<open>activate\<close>. \<open>None\<close> is an argument that is
  \<open>undefined\<close>.
\<close>

definition selectionTargets :: "uri option \<Rightarrow> uri list option \<Rightarrow> uri list" where
  "selectionTargets uri uris =
     (case uris of
        Some list \<Rightarrow> list
      | None \<Rightarrow> (case uri of Some u \<Rightarrow> [u] | None \<Rightarrow> []))"

definition noSelectionWarning :: event where
  "noSelectionWarning = ShowWarningMessage ''No files or folders selected.'' False []"

definition commandHandler ::
  "'fs host \<Rightarrow> uri option \<Rightarrow> uri list option \<Rightarrow> 'fs world \<Rightarrow> 'fs world" where
  "commandHandler H uri uris w =
     (let targets = selectionTargets uri uris
      in if length targets = 0 then emit noSelectionWarning w
         else copyToDestination H targets w)"

section \<open>A small concrete host\<close>

text \<open>
  An instance of the host on which the definitions can be run: the file system is a
  list of paths with what lies there. \<open>stat\<close> resolves on the paths present;
  creating a directory or copying an entry throws below a regular file, and copying
  throws when the source is absent.
\<close>

datatype node = File string | Directory

type_synonym simple_fs = "(uri \<times> node) list"

definition belowFile :: "simple_fs \<Rightarrow> uri \<Rightarrow> bool" where
  "belowFile s p =
     list_ex (\<lambda>(q, n). (case n of File c \<Rightarrow> startsWith p (q @ ''/'') | Directory \<Rightarrow> False)) s"

definition simple_stat :: "simple_fs \<Rightarrow> uri \<Rightarrow> bool" where
  "simple_stat s p = (map_of s p \<noteq> None)"

definition simple_createDirectory :: "simple_fs \<Rightarrow> uri \<Rightarrow> string option \<times> simple_fs" where
  "simple_createDirectory s p =
     (if belowFile s p then (Some ''Error: ENOTDIR'', s)
      else (case map_of s p of
              None \<Rightarrow> (None, (p, Directory) # s)
            | Some Directory \<Rightarrow> (None, s)
            | Some (File c) \<Rightarrow> (Some ''Error: EEXIST'', s)))"

definition simple_copy ::
  "simple_fs \<Rightarrow> uri \<Rightarrow> uri \<Rightarrow> bool \<Rightarrow> string option \<times> simple_fs" where
  "simple_copy s src tgt ow =
     (case map_of s src of
        None \<Rightarrow> (Some ''Error: ENOENT'', s)
      | Some n \<Rightarrow>
          if belowFile s tgt then (Some ''Error: ENOTDIR'', s)
          else if map_of s tgt \<noteq> None \<and> \<not> ow then (Some ''Error: EEXIST'', s)
          else (None, (tgt, n) # filter (\<lambda>(q, m). q \<noteq> tgt) s))"

definition simple_host :: "string \<Rightarrow> string \<Rightarrow> uri list option \<Rightarrow> simple_fs host" where
  "simple_host home configured picked =
     \<lparr>os_homedir = home, destinationPath = configured, openDialogResult = picked,
      fs_stat = simple_stat, fs_createDirectory = simple_createDirectory,
      fs_copy = simple_copy\<rparr>"

definition start :: "simple_fs \<Rightarrow> string option list \<Rightarrow> simple_fs world" where
  "start s as = \<lparr>fs = s, answers = as, trace = []\<rparr>"

text \<open>
  A file system with two source files and a destination folder that already holds a
  \<open>b.txt\<close>, and a host whose setting names that folder through the home marker.
\<close>

definition demo_fs :: simple_fs where
  "demo_fs = [(''/src/a.txt'', File ''A''), (''/src/b.txt'', File ''B''),
              (''/home/user/utils'', Directory), (''/home/user/utils/b.txt'', File ''old'')]"

definition demo_host :: "simple_fs host" where
  "demo_host = simple_host ''/home/user'' ''~/utils'' None"

section \<open>Observations on a run\<close>

text \<open>The target \<open>copySingleItem\<close> computes for a source: destination joined with base name.\<close>

abbreviation itemTarget :: "uri \<Rightarrow> uri \<Rightarrow> uri" where
  "itemTarget destUri sourceUri \<equiv> path_join [destUri, path_basename sourceUri]"

abbreviation overwriteButtons :: "string list" where
  "overwriteButtons \<equiv> [''Overwrite'', ''Skip'', ''Cancel'']"

text \<open>
  The results \<open>copySingleItem\<close> hands to the loop, one per item the loop reaches: the
  loop stops after the first \<open>Cancelled\<close>.
\<close>

fun itemResults :: "'fs host \<Rightarrow> uri \<Rightarrow> uri list \<Rightarrow> 'fs world \<Rightarrow> CopyResult list" where
  "itemResults H destUri [] w = []"
| "itemResults H destUri (uri # uris) w =
     (case copySingleItem H uri destUri w of
        (result, w1) \<Rightarrow>
          result # (if result = Cancelled then [] else itemResults H destUri uris w1))"

text \<open>
  A batch without naming conflicts whose copies all succeed: when the loop reaches an
  item, \<open>stat\<close> on its target throws and the copy resolves.
\<close>

fun noConflictsAllCopied :: "'fs host \<Rightarrow> uri \<Rightarrow> uri list \<Rightarrow> 'fs \<Rightarrow> bool" where
  "noConflictsAllCopied H destUri [] s = True"
| "noConflictsAllCopied H destUri (uri # uris) s =
     (\<not> fs_stat H s (itemTarget destUri uri)
      \<and> fst (fs_copy H s uri (itemTarget destUri uri) True) = None
      \<and> noConflictsAllCopied H destUri uris (snd (fs_copy H s uri (itemTarget destUri uri) True)))"

section \<open>The path module: joining the home directory\<close>

lemma split_on_not_Nil: "split_on c s \<noteq> []"
  by (induction s) (auto split: list.splits)

lemma split_on_append_sep: "split_on c (a @ c # b) = split_on c a @ split_on c b"
proof (induction a)
  case Nil
  then show ?case by simp
next
  case (Cons x a)
  then show ?case
    by (cases "split_on c a") (auto simp: split_on_not_Nil)
qed

lemma normalizeSegments_append:
  "normalizeSegments b acc (A @ B) = normalizeSegments b (rev (normalizeSegments b acc A)) B"
  by (induction b acc A rule: normalizeSegments.induct) (auto split: list.splits)

text \<open>A doubled separator leaves one empty segment, which normalisation drops.\<close>

lemma normalizeString_double_sep:
  "normalizeString (a @ ''/'' @ ''/'' @ r) b = normalizeString (a @ ''/'' @ r) b"
  by (simp add: normalizeString_def split_on_append_sep normalizeSegments_append)

lemma path_normalize_double_sep:
  assumes "a \<noteq> []"
  shows "path_normalize (a @ ''/'' @ ''/'' @ r) = path_normalize (a @ ''/'' @ r)"
proof -
  have "normalizeString (a @ ''/'' @ ''/'' @ r) b = normalizeString (a @ ''/'' @ r) b" for b
    by (rule normalizeString_double_sep)
  moreover have "hd (a @ ''/'' @ ''/'' @ r) = hd (a @ ''/'' @ r)"
    using assms by simp
  moreover have "last (a @ ''/'' @ ''/'' @ r) = last (a @ ''/'' @ r)"
    by simp
  ultimately show ?thesis
    unfolding path_normalize_def by (simp add: Let_def)
qed

lemma path_join_home:
  assumes "rest = [] \<or> hd rest = CHR ''/''"
  shows "path_join [home, rest] = path_normalize (home @ rest)"
proof (cases rest)
  case Nil
  then show ?thesis by (simp add: path_join_def path_normalize_def)
next
  case (Cons x r)
  with assms have x: "x = CHR ''/''" by simp
  show ?thesis
  proof (cases "home = []")
    case True
    then show ?thesis using Cons by (simp add: path_join_def)
  next
    case False
    then show ?thesis
      using Cons x path_normalize_double_sep [OF False, of r] by (simp add: path_join_def)
  qed
qed

lemma startsWith_append: "startsWith (p @ s) p"
  by (induction p) auto

text \<open>
  C1, as the specification states it: expansion and display form are exact inverses on
  every string that begins with the marker, and on every absolute path that begins
  with the home directory. This fails. With home directory \<open>/home/user\<close>, the strings
  \<open>~utils\<close> and \<open>~/a//b\<close> come back as \<open>~/utils\<close> and \<open>~/a/b\<close>, because
  \<open>path.join\<close> inserts a separator and normalises; the paths \<open>/home/user/a/../b\<close> and
  \<open>/home/user2/x\<close> come back as \<open>/home/user/b\<close> and \<open>/home/user/2/x\<close>.
\<close>

theorem C1_inverse_counterexample:
  "formatDestinationForDisplay ''/home/user'' (resolvePath ''/home/user'' ''~utils'') \<noteq> ''~utils''
   \<and> formatDestinationForDisplay ''/home/user'' (resolvePath ''/home/user'' ''~/a//b'') \<noteq> ''~/a//b''
   \<and> resolvePath ''/home/user'' (formatDestinationForDisplay ''/home/user'' ''/home/user/a/../b'')
        \<noteq> ''/home/user/a/../b''
   \<and> resolvePath ''/home/user'' (formatDestinationForDisplay ''/home/user'' ''/home/user2/x'')
        \<noteq> ''/home/user2/x''"
  by (simp add: resolvePath_def formatDestinationForDisplay_def path_join_def
      path_normalize_def normalizeString_def)

text \<open>
  C1, amended: let \<open>rest\<close> be empty or begin with a separator, and let the path
  \<open>home @ rest\<close> be in normal form (\<open>path.normalize\<close> returns it unchanged). Then
  expanding \<open>~rest\<close> gives \<open>home @ rest\<close>, formatting \<open>home @ rest\<close> for display
  gives \<open>~rest\<close>, and so each function undoes the other on these two strings.
\<close>

theorem C1_inverse_on_normal_paths:
  assumes "rest = [] \<or> hd rest = CHR ''/''"
    and "path_normalize (home @ rest) = home @ rest"
  shows "resolvePath home (''~'' @ rest) = home @ rest
       \<and> formatDestinationForDisplay home (home @ rest) = ''~'' @ rest
       \<and> formatDestinationForDisplay home (resolvePath home (''~'' @ rest)) = ''~'' @ rest
       \<and> resolvePath home (formatDestinationForDisplay home (home @ rest)) = home @ rest"
  using assms
  by (simp add: resolvePath_def formatDestinationForDisplay_def path_join_home startsWith_append)

theorem C1_inverse_on_normal_paths_witness:
  "resolvePath ''/home/user'' ''~/utils'' = ''/home/user/utils''
   \<and> formatDestinationForDisplay ''/home/user'' ''/home/user/utils'' = ''~/utils''
   \<and> formatDestinationForDisplay ''/home/user'' (resolvePath ''/home/user'' ''~/utils'') = ''~/utils''
   \<and> resolvePath ''/home/user'' (formatDestinationForDisplay ''/home/user'' ''/home/user/utils'')
        = ''/home/user/utils''"
proof -
  have shape: "''/utils'' = [] \<or> hd ''/utils'' = CHR ''/''"
    by simp
  have normal: "path_normalize (''/home/user'' @ ''/utils'') = ''/home/user'' @ ''/utils''"
    by (simp add: path_normalize_def normalizeString_def)
  show ?thesis
    using C1_inverse_on_normal_paths [OF shape normal] by simp
qed

section \<open>Basic facts about the steps of a run\<close>

lemma fs_emit [simp]: "fs (emit e w) = fs w"
  and answers_emit [simp]: "answers (emit e w) = answers w"
  and trace_emit [simp]: "trace (emit e w) = trace w @ [e]"
  by (simp_all add: emit_def)

lemma tryCopy_ok:
  assumes "fs_copy H (fs w) u t True = (None, s)"
  shows "tryCopy H u t f w = (Success, (emit (Copy u t True) w)\<lparr>fs := s\<rparr>)"
  using assms by (simp add: tryCopy_def Let_def)

lemma tryCopy_throws:
  assumes "fs_copy H (fs w) u t True = (Some reason, s)"
  shows "tryCopy H u t f w =
           (Skipped,
            emit (ShowErrorMessage (''Failed to copy '' @ [dquote] @ f @ [dquote] @ '': '' @ reason))
              ((emit (Copy u t True) w)\<lparr>fs := s\<rparr>))"
  using assms by (simp add: tryCopy_def Let_def)

lemma copySingleItem_fresh:
  assumes "\<not> fs_stat H (fs w) (itemTarget d u)"
  shows "copySingleItem H u d w =
           tryCopy H u (itemTarget d u) (path_basename u) (emit (Stat (itemTarget d u)) w)"
  using assms by (simp add: copySingleItem_def targetExists_def Let_def)

lemma copySingleItem_conflict:
  assumes "fs_stat H (fs w) (itemTarget d u)"
  shows "copySingleItem H u d w =
           (case promptOverwrite (path_basename u) d (emit (Stat (itemTarget d u)) w) of
              (Cancel, w2) \<Rightarrow> (Cancelled, w2)
            | (Skip, w2) \<Rightarrow> (Skipped, w2)
            | (Overwrite, w2) \<Rightarrow> tryCopy H u (itemTarget d u) (path_basename u) w2)"
  using assms by (simp add: copySingleItem_def targetExists_def Let_def)

text \<open>The dialog records itself and consumes one answer, whatever the answer is.\<close>

lemma promptOverwrite_world:
  "snd (promptOverwrite f p w) =
     (emit (ShowWarningMessage (overwriteMessage f p) True overwriteButtons) w)
       \<lparr>answers := tl (answers w)\<rparr>"
  by (simp add: promptOverwrite_def Let_def emit_def split: list.splits)

lemma copySingleItem_skip:
  assumes "fs_stat H (fs w) (itemTarget d u)"
    and "fst (promptOverwrite (path_basename u) d (emit (Stat (itemTarget d u)) w)) = Skip"
  shows "copySingleItem H u d w =
           (Skipped,
            (emit (ShowWarningMessage (overwriteMessage (path_basename u) d) True overwriteButtons)
               (emit (Stat (itemTarget d u)) w))\<lparr>answers := tl (answers w)\<rparr>)"
proof -
  let ?w1 = "emit (Stat (itemTarget d u)) w"
  have "promptOverwrite (path_basename u) d ?w1
          = (Skip, snd (promptOverwrite (path_basename u) d ?w1))"
    using assms(2) by (metis prod.collapse)
  then show ?thesis
    using assms(1) by (simp add: copySingleItem_conflict promptOverwrite_world)
qed

lemma copySingleItem_cancel:
  assumes "fs_stat H (fs w) (itemTarget d u)"
    and "fst (promptOverwrite (path_basename u) d (emit (Stat (itemTarget d u)) w)) = Cancel"
  shows "copySingleItem H u d w =
           (Cancelled,
            (emit (ShowWarningMessage (overwriteMessage (path_basename u) d) True overwriteButtons)
               (emit (Stat (itemTarget d u)) w))\<lparr>answers := tl (answers w)\<rparr>)"
proof -
  let ?w1 = "emit (Stat (itemTarget d u)) w"
  have "promptOverwrite (path_basename u) d ?w1
          = (Cancel, snd (promptOverwrite (path_basename u) d ?w1))"
    using assms(2) by (metis prod.collapse)
  then show ?thesis
    using assms(1) by (simp add: copySingleItem_conflict promptOverwrite_world)
qed

lemma copySingleItem_overwrite:
  assumes "fs_stat H (fs w) (itemTarget d u)"
    and "fst (promptOverwrite (path_basename u) d (emit (Stat (itemTarget d u)) w)) = Overwrite"
  shows "copySingleItem H u d w =
           tryCopy H u (itemTarget d u) (path_basename u)
             ((emit (ShowWarningMessage (overwriteMessage (path_basename u) d) True overwriteButtons)
                 (emit (Stat (itemTarget d u)) w))\<lparr>answers := tl (answers w)\<rparr>)"
proof -
  let ?w1 = "emit (Stat (itemTarget d u)) w"
  have "promptOverwrite (path_basename u) d ?w1
          = (Overwrite, snd (promptOverwrite (path_basename u) d ?w1))"
    using assms(2) by (metis prod.collapse)
  then show ?thesis
    using assms(1) by (simp add: copySingleItem_conflict promptOverwrite_world)
qed

lemma copySingleItem_fresh_ok:
  assumes "\<not> fs_stat H (fs w) (itemTarget d u)"
    and "fst (fs_copy H (fs w) u (itemTarget d u) True) = None"
  shows "copySingleItem H u d w =
           (Success,
            (emit (Copy u (itemTarget d u) True) (emit (Stat (itemTarget d u)) w))
              \<lparr>fs := snd (fs_copy H (fs w) u (itemTarget d u) True)\<rparr>)"
proof -
  have "fs_copy H (fs w) u (itemTarget d u) True
          = (None, snd (fs_copy H (fs w) u (itemTarget d u) True))"
    using assms(2) by (metis prod.collapse)
  then show ?thesis
    using assms(1) by (simp add: copySingleItem_fresh tryCopy_ok)
qed

subsection \<open>The loop\<close>

lemma copyLoop_append:
  "copyLoop H d (xs @ ys) c k w =
     (case copyLoop H d xs c k w of
        (None, w1) \<Rightarrow> (None, w1)
      | (Some (c1, k1), w1) \<Rightarrow> copyLoop H d ys c1 k1 w1)"
  by (induction xs arbitrary: c k w) (auto split: prod.splits CopyResult.splits)

text \<open>A loop that runs to its end has counted every item once.\<close>

lemma copyLoop_counts:
  "copyLoop H d xs c k w = (Some (c1, k1), w1) \<Longrightarrow> c1 + k1 = c + k + length xs"
  by (induction xs arbitrary: c k w) (auto split: prod.splits CopyResult.splits)

text \<open>The counters are the numbers of \<open>Success\<close> and \<open>Skipped\<close> results the loop saw.\<close>

lemma copyLoop_itemResults:
  "fst (copyLoop H d xs c k w) =
     (if Cancelled \<in> set (itemResults H d xs w) then None
      else Some (c + length (filter (\<lambda>r. r = Success) (itemResults H d xs w)),
                 k + length (filter (\<lambda>r. r = Skipped) (itemResults H d xs w))))"
  by (induction xs arbitrary: c k w) (auto split: prod.splits CopyResult.splits)

lemma copyToDestination_loop:
  assumes "getDestinationUri H w = (Some d, w1)"
    and "ensureDestinationDirectory H d w1 = (True, w2)"
  shows "copyToDestination H uris w =
     (case copyLoop H d uris 0 0 w2 of
        (None, w3) \<Rightarrow> w3
      | (Some (c, k), w3) \<Rightarrow>
          if c > 0 then
            emit (ShowInformationMessage
                   (if k > 0
                    then copiedSkippedMessage c (formatDestinationForDisplay (os_homedir H) d) k
                    else copiedMessage c (formatDestinationForDisplay (os_homedir H) d))) w3
          else if k > 0 then emit (ShowInformationMessage (allSkippedMessage k)) w3
          else w3)"
  using assms by (simp add: copyToDestination_def Let_def)

lemma noConflicts_loop:
  "noConflictsAllCopied H d uris (fs w) \<Longrightarrow>
     fst (copyLoop H d uris c k w) = Some (c + length uris, k)
     \<and> itemResults H d uris w = replicate (length uris) Success"
proof (induction uris arbitrary: c w)
  case Nil
  then show ?case by simp
next
  case (Cons u uris)
  let ?w1 = "(emit (Copy u (itemTarget d u) True) (emit (Stat (itemTarget d u)) w))
               \<lparr>fs := snd (fs_copy H (fs w) u (itemTarget d u) True)\<rparr>"
  from Cons.prems have step: "copySingleItem H u d w = (Success, ?w1)"
    by (simp add: copySingleItem_fresh_ok)
  from Cons.prems have "noConflictsAllCopied H d uris (fs ?w1)"
    by simp
  from Cons.IH [OF this, of "c + 1"] show ?case
    by (simp add: step)
qed

subsection \<open>What a run adds to the record of host calls\<close>

text \<open>
  Each step only appends to the record, and never the plain warning that the command
  handler shows for an empty selection.
\<close>

lemma tryCopy_trace:
  "\<exists>evs. trace (snd (tryCopy H u t f w)) = trace w @ Copy u t True # evs
         \<and> noSelectionWarning \<notin> set evs"
  by (auto simp: tryCopy_def Let_def noSelectionWarning_def split: prod.splits option.splits)

lemma copySingleItem_trace:
  "\<exists>evs. trace (snd (copySingleItem H u d w)) = trace w @ Stat (itemTarget d u) # evs
         \<and> noSelectionWarning \<notin> set evs"
proof (cases "fs_stat H (fs w) (itemTarget d u)")
  case False
  obtain evs where
    "trace (snd (tryCopy H u (itemTarget d u) (path_basename u) (emit (Stat (itemTarget d u)) w)))
       = trace (emit (Stat (itemTarget d u)) w) @ Copy u (itemTarget d u) True # evs"
    and "noSelectionWarning \<notin> set evs"
    using tryCopy_trace by blast
  then show ?thesis
    using False by (simp add: copySingleItem_fresh noSelectionWarning_def)
next
  case True
  let ?w1 = "emit (Stat (itemTarget d u)) w"
  let ?w2 = "(emit (ShowWarningMessage (overwriteMessage (path_basename u) d) True overwriteButtons) ?w1)
               \<lparr>answers := tl (answers w)\<rparr>"
  show ?thesis
  proof (cases "fst (promptOverwrite (path_basename u) d ?w1)")
    case Overwrite
    obtain evs where
      "trace (snd (tryCopy H u (itemTarget d u) (path_basename u) ?w2))
         = trace ?w2 @ Copy u (itemTarget d u) True # evs"
      and "noSelectionWarning \<notin> set evs"
      using tryCopy_trace by blast
    then show ?thesis
      by (simp add: copySingleItem_overwrite [OF True Overwrite] noSelectionWarning_def)
  next
    case Skip
    show ?thesis
      by (simp add: copySingleItem_skip [OF True Skip] noSelectionWarning_def)
  next
    case Cancel
    show ?thesis
      by (simp add: copySingleItem_cancel [OF True Cancel] noSelectionWarning_def)
  qed
qed

lemma copyLoop_trace:
  "\<exists>evs. trace (snd (copyLoop H d uris c k w)) = trace w @ evs \<and> noSelectionWarning \<notin> set evs"
proof (induction uris arbitrary: c k w)
  case Nil
  then show ?case by simp
next
  case (Cons u uris)
  obtain r w1 where step: "copySingleItem H u d w = (r, w1)"
    by (cases "copySingleItem H u d w")
  obtain evs where evs: "trace w1 = trace w @ Stat (itemTarget d u) # evs"
    "noSelectionWarning \<notin> set evs"
    using copySingleItem_trace [of H u d w] step by auto
  show ?case
  proof (cases r)
    case Success
    obtain evs' where "trace (snd (copyLoop H d uris (c + 1) k w1)) = trace w1 @ evs'"
      "noSelectionWarning \<notin> set evs'"
      using Cons.IH by blast
    then show ?thesis
      using evs step Success by (simp add: noSelectionWarning_def)
  next
    case Skipped
    obtain evs' where "trace (snd (copyLoop H d uris c (k + 1) w1)) = trace w1 @ evs'"
      "noSelectionWarning \<notin> set evs'"
      using Cons.IH by blast
    then show ?thesis
      using evs step Skipped by (simp add: noSelectionWarning_def)
  next
    case Cancelled
    then show ?thesis
      using evs step by (simp add: noSelectionWarning_def)
  qed
qed

lemma copyLoop_trace_first:
  "\<exists>evs. trace (snd (copyLoop H d (u # uris) c k w)) = trace w @ Stat (itemTarget d u) # evs"
proof -
  obtain r w1 where step: "copySingleItem H u d w = (r, w1)"
    by (cases "copySingleItem H u d w")
  obtain evs where evs: "trace w1 = trace w @ Stat (itemTarget d u) # evs"
    using copySingleItem_trace [of H u d w] step by auto
  obtain e1 where "trace (snd (copyLoop H d uris (c + 1) k w1)) = trace w1 @ e1"
    using copyLoop_trace by blast
  moreover obtain e2 where "trace (snd (copyLoop H d uris c (k + 1) w1)) = trace w1 @ e2"
    using copyLoop_trace by blast
  ultimately show ?thesis
    using evs step by (cases r) simp_all
qed

lemma getDestinationUri_trace:
  "\<exists>evs. trace (snd (getDestinationUri H w)) = trace w @ evs \<and> noSelectionWarning \<notin> set evs"
  by (auto simp: getDestinationUri_def Let_def noSelectionWarning_def
      split: option.splits list.splits)

lemma ensureDestinationDirectory_trace:
  "\<exists>evs. trace (snd (ensureDestinationDirectory H d w)) = trace w @ evs
         \<and> noSelectionWarning \<notin> set evs"
  by (auto simp: ensureDestinationDirectory_def Let_def noSelectionWarning_def
      split: prod.splits option.splits)

lemma copyToDestination_trace:
  "\<exists>evs. trace (copyToDestination H uris w) = trace w @ evs \<and> noSelectionWarning \<notin> set evs"
proof -
  obtain dest w1 where g: "getDestinationUri H w = (dest, w1)"
    by (cases "getDestinationUri H w")
  obtain e1 where e1: "trace w1 = trace w @ e1" "noSelectionWarning \<notin> set e1"
    using getDestinationUri_trace [of H w] g by auto
  show ?thesis
  proof (cases dest)
    case None
    then show ?thesis using g e1 by (simp add: copyToDestination_def)
  next
    case (Some d)
    obtain ok w2 where en: "ensureDestinationDirectory H d w1 = (ok, w2)"
      by (cases "ensureDestinationDirectory H d w1")
    obtain e2 where e2: "trace w2 = trace w1 @ e2" "noSelectionWarning \<notin> set e2"
      using ensureDestinationDirectory_trace [of H d w1] en by auto
    show ?thesis
    proof (cases ok)
      case False
      then show ?thesis using g Some en e1 e2 by (simp add: copyToDestination_def)
    next
      case True
      obtain res w3 where lp: "copyLoop H d uris 0 0 w2 = (res, w3)"
        by (cases "copyLoop H d uris 0 0 w2")
      obtain e3 where e3: "trace w3 = trace w2 @ e3" "noSelectionWarning \<notin> set e3"
        using copyLoop_trace [of H d uris 0 0 w2] lp by auto
      from g Some en True have run: "copyToDestination H uris w =
         (case copyLoop H d uris 0 0 w2 of
            (None, w3) \<Rightarrow> w3
          | (Some (c, k), w3) \<Rightarrow>
              if c > 0 then
                emit (ShowInformationMessage
                       (if k > 0
                        then copiedSkippedMessage c (formatDestinationForDisplay (os_homedir H) d) k
                        else copiedMessage c (formatDestinationForDisplay (os_homedir H) d))) w3
              else if k > 0 then emit (ShowInformationMessage (allSkippedMessage k)) w3
              else w3)"
        by (simp add: copyToDestination_loop)
      show ?thesis
        using e1 e2 e3 by (cases res) (auto simp: run lp noSelectionWarning_def)
    qed
  qed
qed

subsection \<open>Running the definitions on the concrete host\<close>

lemmas path_eval = path_join_def path_normalize_def normalizeString_def path_basename_def
  resolvePath_def formatDestinationForDisplay_def

lemmas host_eval = simple_host_def simple_stat_def simple_createDirectory_def simple_copy_def
  belowFile_def start_def demo_fs_def demo_host_def

lemmas run_eval = copyToDestination_def getDestinationUri_def ensureDestinationDirectory_def
  copySingleItem_def targetExists_def promptOverwrite_def tryCopy_def emit_def
  overwriteMessage_def dquote_def cancelledMessage_def copiedMessage_def
  copiedSkippedMessage_def allSkippedMessage_def digit_def string_of_nat.simps Let_def
  commandHandler_def selectionTargets_def noSelectionWarning_def uriFile_def

section \<open>Cancelling at a conflict\<close>

text \<open>
  C2. Let the destination be obtained and ensured, let the loop run over the items
  \<open>pre\<close> before item \<open>u\<close> without a cancellation, ending with the counters \<open>copied\<close>
  and \<open>skipped\<close>, and let the target of \<open>u\<close> exist and the conflict dialog for \<open>u\<close>
  return \<open>Cancel\<close>. Then whatever items \<open>post\<close> follow \<open>u\<close>, the run is the run
  without them: after the loop over \<open>pre\<close> the host sees the existence check and the
  dialog for \<open>u\<close>, then the message \<open>Cancelled. Copied {copied} item(s), skipped
  {skipped}.\<close>, and nothing else; the file system stays as the items before \<open>u\<close>
  left it. The two counters are the numbers of successes and skips among the items
  before \<open>u\<close>, and they add up to the number of those items.
\<close>

theorem C2_cancel_stops_batch:
  assumes "getDestinationUri H w = (Some d, w1)"
    and "ensureDestinationDirectory H d w1 = (True, w2)"
    and "copyLoop H d pre 0 0 w2 = (Some (copied, skipped), w3)"
    and "fs_stat H (fs w3) (itemTarget d u)"
    and "fst (promptOverwrite (path_basename u) d (emit (Stat (itemTarget d u)) w3)) = Cancel"
  shows "copyToDestination H (pre @ u # post) w = copyToDestination H (pre @ [u]) w
       \<and> fs (copyToDestination H (pre @ u # post) w) = fs w3
       \<and> trace (copyToDestination H (pre @ u # post) w)
           = trace w3 @
             [Stat (itemTarget d u),
              ShowWarningMessage (overwriteMessage (path_basename u) d) True overwriteButtons,
              ShowInformationMessage
                (''Cancelled. Copied '' @ string_of_nat copied @ '' item(s), skipped ''
                   @ string_of_nat skipped @ ''.'')]
       \<and> copied = length (filter (\<lambda>r. r = Success) (itemResults H d pre w2))
       \<and> skipped = length (filter (\<lambda>r. r = Skipped) (itemResults H d pre w2))
       \<and> copied + skipped = length pre"
proof -
  have run: "copyToDestination H (pre @ u # rest) w =
      emit (ShowInformationMessage (cancelledMessage copied skipped))
        ((emit (ShowWarningMessage (overwriteMessage (path_basename u) d) True overwriteButtons)
            (emit (Stat (itemTarget d u)) w3))\<lparr>answers := tl (answers w3)\<rparr>)" for rest
    by (simp add: copyToDestination_loop [OF assms(1,2)] copyLoop_append assms(3)
        copySingleItem_cancel [OF assms(4,5)])
  have counts: "fst (copyLoop H d pre 0 0 w2) = Some (copied, skipped)"
    using assms(3) by simp
  have "copied = length (filter (\<lambda>r. r = Success) (itemResults H d pre w2))
      \<and> skipped = length (filter (\<lambda>r. r = Skipped) (itemResults H d pre w2))"
    using counts unfolding copyLoop_itemResults by (simp split: if_splits)
  moreover have "copied + skipped = length pre"
    using copyLoop_counts [OF assms(3)] by simp
  ultimately show ?thesis
    by (simp add: run cancelledMessage_def)
qed

text \<open>
  Three items into \<open>~/utils\<close>, which already holds \<open>b.txt\<close>; the dialog for the second
  item is dismissed. The third item leaves no mark.
\<close>

theorem C2_cancel_stops_batch_witness:
  "copyToDestination demo_host [''/src/a.txt'', ''/src/b.txt'', ''/src/a.txt''] (start demo_fs [None])
     = copyToDestination demo_host [''/src/a.txt'', ''/src/b.txt''] (start demo_fs [None])
   \<and> fs (copyToDestination demo_host [''/src/a.txt'', ''/src/b.txt'', ''/src/a.txt'']
            (start demo_fs [None]))
       = (''/home/user/utils/a.txt'', File ''A'') # demo_fs
   \<and> trace (copyToDestination demo_host [''/src/a.txt'', ''/src/b.txt'', ''/src/a.txt'']
               (start demo_fs [None]))
       = [Stat ''/home/user/utils'',
          Stat ''/home/user/utils/a.txt'',
          Copy ''/src/a.txt'' ''/home/user/utils/a.txt'' True,
          Stat ''/home/user/utils/b.txt'',
          ShowWarningMessage (overwriteMessage ''b.txt'' ''/home/user/utils'') True overwriteButtons,
          ShowInformationMessage ''Cancelled. Copied 1 item(s), skipped 0.'']"
proof -
  let ?w = "start demo_fs [None]"
  let ?d = "''/home/user/utils''"
  let ?w2 = "emit (Stat ?d) ?w"
  let ?w3 = "snd (copyLoop demo_host ?d [''/src/a.txt''] 0 0 ?w2)"
  have dest: "getDestinationUri demo_host ?w = (Some ?d, ?w)"
    by (simp add: host_eval path_eval run_eval)
  have ensured: "ensureDestinationDirectory demo_host ?d ?w = (True, ?w2)"
    by (simp add: host_eval run_eval)
  have "fst (copyLoop demo_host ?d [''/src/a.txt''] 0 0 ?w2) = Some (1, 0)"
    by (simp add: host_eval path_eval run_eval)
  then have before: "copyLoop demo_host ?d [''/src/a.txt''] 0 0 ?w2 = (Some (1, 0), ?w3)"
    by (metis prod.collapse)
  have conflict: "fs_stat demo_host (fs ?w3) (itemTarget ?d ''/src/b.txt'')"
    by (simp add: host_eval path_eval run_eval)
  have cancel: "fst (promptOverwrite (path_basename ''/src/b.txt'') ?d
                  (emit (Stat (itemTarget ?d ''/src/b.txt'')) ?w3)) = Cancel"
    by (simp add: host_eval path_eval run_eval)
  show ?thesis
    using C2_cancel_stops_batch [OF dest ensured before conflict cancel, of "[''/src/a.txt'']"]
    by (simp add: host_eval path_eval run_eval)
qed

section \<open>A batch without conflicts\<close>

text \<open>
  C3. For every non-empty source list, when the destination is obtained and ensured,
  no target exists when its item is reached and every copy resolves, then
  \<open>copySingleItem\<close> returns \<open>Success\<close> for every item, the loop ends with the copied
  counter equal to the length of the list and the skipped counter zero, and the run
  ends by showing \<open>Copied {n} item(s) to {displayPath}.\<close> with \<open>n\<close> the length of
  the list.
\<close>

theorem C3_no_conflicts_all_copied:
  assumes "uris \<noteq> []"
    and "getDestinationUri H w = (Some d, w1)"
    and "ensureDestinationDirectory H d w1 = (True, w2)"
    and "noConflictsAllCopied H d uris (fs w2)"
  shows "itemResults H d uris w2 = replicate (length uris) Success
       \<and> fst (copyLoop H d uris 0 0 w2) = Some (length uris, 0)
       \<and> copyToDestination H uris w
           = emit (ShowInformationMessage
                     (''Copied '' @ string_of_nat (length uris) @ '' item(s) to ''
                        @ formatDestinationForDisplay (os_homedir H) d @ ''.''))
                  (snd (copyLoop H d uris 0 0 w2))"
proof -
  from noConflicts_loop [OF assms(4), of 0 0]
  have loop: "fst (copyLoop H d uris 0 0 w2) = Some (length uris, 0)"
    and results: "itemResults H d uris w2 = replicate (length uris) Success"
    by simp_all
  from loop obtain w3 where w3: "copyLoop H d uris 0 0 w2 = (Some (length uris, 0), w3)"
    by (cases "copyLoop H d uris 0 0 w2") simp
  have "copyToDestination H uris w
      = emit (ShowInformationMessage
                (copiedMessage (length uris) (formatDestinationForDisplay (os_homedir H) d))) w3"
    using assms(1) by (simp add: copyToDestination_loop [OF assms(2,3)] w3)
  then show ?thesis
    using loop results by (simp add: copiedMessage_def w3)
qed

text \<open>
  The setting is \<open>~/utils\<close>, the folder does not exist yet, and two new files are
  copied: both succeed and the message is \<open>Copied 2 item(s) to ~/utils.\<close>
\<close>

theorem C3_no_conflicts_all_copied_witness:
  "noConflictsAllCopied demo_host ''/home/user/utils'' [''/src/a.txt'', ''/src/b.txt'']
     [(''/home/user/utils'', Directory), (''/src/a.txt'', File ''A''), (''/src/b.txt'', File ''B'')]
   \<and> itemResults demo_host ''/home/user/utils'' [''/src/a.txt'', ''/src/b.txt'']
        (snd (ensureDestinationDirectory demo_host ''/home/user/utils''
                (start [(''/src/a.txt'', File ''A''), (''/src/b.txt'', File ''B'')] [])))
       = [Success, Success]
   \<and> trace (copyToDestination demo_host [''/src/a.txt'', ''/src/b.txt'']
               (start [(''/src/a.txt'', File ''A''), (''/src/b.txt'', File ''B'')] []))
       = [Stat ''/home/user/utils'',
          CreateDirectory ''/home/user/utils'',
          Stat ''/home/user/utils/a.txt'',
          Copy ''/src/a.txt'' ''/home/user/utils/a.txt'' True,
          Stat ''/home/user/utils/b.txt'',
          Copy ''/src/b.txt'' ''/home/user/utils/b.txt'' True,
          ShowInformationMessage ''Copied 2 item(s) to ~/utils.'']"
proof -
  let ?s = "[(''/src/a.txt'', File ''A''), (''/src/b.txt'', File ''B'')]"
  let ?w = "start ?s []"
  let ?d = "''/home/user/utils''"
  let ?uris = "[''/src/a.txt'', ''/src/b.txt'']"
  let ?w2 = "snd (ensureDestinationDirectory demo_host ?d ?w)"
  have nonempty: "?uris \<noteq> []"
    by simp
  have dest: "getDestinationUri demo_host ?w = (Some ?d, ?w)"
    by (simp add: host_eval path_eval run_eval)
  have ensured: "ensureDestinationDirectory demo_host ?d ?w = (True, ?w2)"
    by (simp add: host_eval run_eval)
  have created: "fs ?w2 = (?d, Directory) # ?s"
    by (simp add: host_eval run_eval)
  have clean: "noConflictsAllCopied demo_host ?d ?uris ((?d, Directory) # ?s)"
    by (simp add: host_eval path_eval)
  then have clean': "noConflictsAllCopied demo_host ?d ?uris (fs ?w2)"
    by (simp only: created)
  show ?thesis
    using C3_no_conflicts_all_copied [OF nonempty dest ensured clean'] clean
    by (simp add: host_eval path_eval run_eval)
qed

section \<open>A copy that throws\<close>

text \<open>
  C4. Whenever the copy inside \<open>copySingleItem\<close> is reached (the target does not exist,
  or it exists and the dialog returns \<open>Overwrite\<close>) and throws, with whatever reason and
  for whatever item, the item's result is \<open>Skipped\<close>, the host calls of the item are
  the existence check, the dialog if there was a conflict, the copy, and one error
  message \<open>Failed to copy "{fileName}": {reason}\<close>; the loop adds one to the skipped
  counter, leaves the copied counter alone and goes on with the remaining items.
\<close>

theorem C4_copy_failure_skips_item:
  assumes "\<not> fs_stat H (fs w) (itemTarget d u)
           \<or> fst (promptOverwrite (path_basename u) d (emit (Stat (itemTarget d u)) w)) = Overwrite"
    and "fs_copy H (fs w) u (itemTarget d u) True = (Some reason, s)"
  shows "fst (copySingleItem H u d w) = Skipped
       \<and> trace (snd (copySingleItem H u d w))
           = trace w @ Stat (itemTarget d u)
             # (if fs_stat H (fs w) (itemTarget d u)
                then [ShowWarningMessage (overwriteMessage (path_basename u) d) True overwriteButtons]
                else [])
             @ [Copy u (itemTarget d u) True,
                ShowErrorMessage
                  (''Failed to copy '' @ [dquote] @ path_basename u @ [dquote] @ '': '' @ reason)]
       \<and> fs (snd (copySingleItem H u d w)) = s
       \<and> copyLoop H d (u # us) c k w = copyLoop H d us c (k + 1) (snd (copySingleItem H u d w))"
proof (cases "fs_stat H (fs w) (itemTarget d u)")
  case True
  with assms(1)
  have ow: "fst (promptOverwrite (path_basename u) d (emit (Stat (itemTarget d u)) w)) = Overwrite"
    by simp
  show ?thesis
    using True assms(2) by (simp add: copySingleItem_overwrite [OF True ow] tryCopy_throws)
next
  case False
  then show ?thesis
    using assms(2) by (simp add: copySingleItem_fresh tryCopy_throws)
qed

text \<open>
  The first of two sources does not exist, so its copy throws; the second one is still
  copied. Then a source that does not exist but whose name is taken in the destination:
  the user presses Overwrite and the copy throws.
\<close>

theorem C4_copy_failure_skips_item_witness:
  "\<not> fs_stat demo_host demo_fs (itemTarget ''/home/user/utils'' ''/src/gone.txt'')
   \<and> fs_copy demo_host demo_fs ''/src/gone.txt'' (itemTarget ''/home/user/utils'' ''/src/gone.txt'') True
       = (Some ''Error: ENOENT'', demo_fs)
   \<and> fst (copySingleItem demo_host ''/src/gone.txt'' ''/home/user/utils'' (start demo_fs []))
       = Skipped
   \<and> trace (snd (copySingleItem demo_host ''/src/gone.txt'' ''/home/user/utils'' (start demo_fs [])))
       = [Stat ''/home/user/utils/gone.txt'',
          Copy ''/src/gone.txt'' ''/home/user/utils/gone.txt'' True,
          ShowErrorMessage (''Failed to copy '' @ [dquote] @ ''gone.txt'' @ [dquote] @ '': Error: ENOENT'')]
   \<and> fst (copyLoop demo_host ''/home/user/utils'' [''/src/gone.txt'', ''/src/a.txt''] 0 0
            (start demo_fs []))
       = Some (1, 1)
   \<and> fs_stat demo_host demo_fs (itemTarget ''/home/user/utils'' ''/old/b.txt'')
   \<and> fst (copySingleItem demo_host ''/old/b.txt'' ''/home/user/utils''
            (start demo_fs [Some ''Overwrite'']))
       = Skipped
   \<and> trace (snd (copySingleItem demo_host ''/old/b.txt'' ''/home/user/utils''
                   (start demo_fs [Some ''Overwrite''])))
       = [Stat ''/home/user/utils/b.txt'',
          ShowWarningMessage (overwriteMessage ''b.txt'' ''/home/user/utils'') True overwriteButtons,
          Copy ''/old/b.txt'' ''/home/user/utils/b.txt'' True,
          ShowErrorMessage (''Failed to copy '' @ [dquote] @ ''b.txt'' @ [dquote] @ '': Error: ENOENT'')]"
proof -
  let ?w = "start demo_fs []"
  let ?v = "start demo_fs [Some ''Overwrite'']"
  let ?d = "''/home/user/utils''"
  have fresh: "\<not> fs_stat demo_host (fs ?w) (itemTarget ?d ''/src/gone.txt'')"
    by (simp add: host_eval path_eval)
  have throws: "fs_copy demo_host (fs ?w) ''/src/gone.txt'' (itemTarget ?d ''/src/gone.txt'') True
                  = (Some ''Error: ENOENT'', demo_fs)"
    by (simp add: host_eval path_eval)
  have rest: "fst (copyLoop demo_host ?d [''/src/a.txt''] 0 1
                 (snd (copySingleItem demo_host ''/src/gone.txt'' ?d ?w))) = Some (1, 1)"
    by (simp add: host_eval path_eval run_eval)
  have conflict: "fs_stat demo_host (fs ?v) (itemTarget ?d ''/old/b.txt'')"
    by (simp add: host_eval path_eval)
  have replace: "fst (promptOverwrite (path_basename ''/old/b.txt'') ?d
                   (emit (Stat (itemTarget ?d ''/old/b.txt'')) ?v)) = Overwrite"
    by (simp add: promptOverwrite_def emit_def start_def Let_def)
  have throws': "fs_copy demo_host (fs ?v) ''/old/b.txt'' (itemTarget ?d ''/old/b.txt'') True
                  = (Some ''Error: ENOENT'', demo_fs)"
    by (simp add: host_eval path_eval)
  have one: "fst (copySingleItem demo_host ''/src/gone.txt'' ?d ?w) = Skipped
      \<and> trace (snd (copySingleItem demo_host ''/src/gone.txt'' ?d ?w))
          = [Stat ''/home/user/utils/gone.txt'',
             Copy ''/src/gone.txt'' ''/home/user/utils/gone.txt'' True,
             ShowErrorMessage (''Failed to copy '' @ [dquote] @ ''gone.txt'' @ [dquote] @ '': Error: ENOENT'')]
      \<and> fst (copyLoop demo_host ?d [''/src/gone.txt'', ''/src/a.txt''] 0 0 ?w) = Some (1, 1)"
    using C4_copy_failure_skips_item [OF disjI1 [OF fresh] throws, of "[''/src/a.txt'']" 0 0]
      fresh rest
    by (simp add: start_def path_eval dquote_def)
  have two: "fst (copySingleItem demo_host ''/old/b.txt'' ?d ?v) = Skipped
      \<and> trace (snd (copySingleItem demo_host ''/old/b.txt'' ?d ?v))
          = [Stat ''/home/user/utils/b.txt'',
             ShowWarningMessage (overwriteMessage ''b.txt'' ?d) True overwriteButtons,
             Copy ''/old/b.txt'' ''/home/user/utils/b.txt'' True,
             ShowErrorMessage (''Failed to copy '' @ [dquote] @ ''b.txt'' @ [dquote] @ '': Error: ENOENT'')]"
    using C4_copy_failure_skips_item [OF disjI2 [OF replace] throws', of "[]" 0 0] conflict
    by (simp add: start_def path_eval dquote_def)
  have fresh': "\<not> fs_stat demo_host demo_fs (itemTarget ?d ''/src/gone.txt'')"
    and throws'': "fs_copy demo_host demo_fs ''/src/gone.txt'' (itemTarget ?d ''/src/gone.txt'') True
                  = (Some ''Error: ENOENT'', demo_fs)"
    and conflict': "fs_stat demo_host demo_fs (itemTarget ?d ''/old/b.txt'')"
    using fresh throws conflict by (simp_all add: start_def)
  show ?thesis
    using one two fresh' throws'' conflict' by blast
qed

section \<open>No destination\<close>

text \<open>
  C5. If the configured destination is the empty string and the folder picker is
  dismissed, so that \<open>getDestinationUri\<close> returns nothing, then \<open>copyToDestination\<close>
  leaves the file system as it was, and the only host call it makes is the folder
  picker itself: no directory is created, nothing is copied, no message is shown.
\<close>

theorem C5_dismissed_picker_no_effect:
  assumes "destinationPath H = []"
    and "fst (getDestinationUri H w) = None"
  shows "copyToDestination H uris w = emit ShowOpenDialog w
       \<and> fs (copyToDestination H uris w) = fs w
       \<and> trace (copyToDestination H uris w) = trace w @ [ShowOpenDialog]"
  using assms
  by (auto simp: copyToDestination_def getDestinationUri_def Let_def
      split: option.splits list.splits)

theorem C5_dismissed_picker_no_effect_witness:
  "destinationPath (simple_host ''/home/user'' [] None) = []
   \<and> fst (getDestinationUri (simple_host ''/home/user'' [] None) (start demo_fs [])) = None
   \<and> fs (copyToDestination (simple_host ''/home/user'' [] None) [''/src/a.txt''] (start demo_fs []))
       = demo_fs
   \<and> trace (copyToDestination (simple_host ''/home/user'' [] None) [''/src/a.txt''] (start demo_fs []))
       = [ShowOpenDialog]"
proof -
  let ?H = "simple_host ''/home/user'' [] None"
  have unset: "destinationPath ?H = []"
    by (simp add: simple_host_def)
  have dismissed: "fst (getDestinationUri ?H (start demo_fs [])) = None"
    by (simp add: simple_host_def getDestinationUri_def Let_def)
  show ?thesis
    using C5_dismissed_picker_no_effect [OF unset dismissed, of "[''/src/a.txt'']"] unset dismissed
    by (simp add: start_def emit_def)
qed

section \<open>The message after a full pass\<close>

text \<open>
  C6. Let the destination be obtained and ensured and let the loop run over the whole
  source list without a cancellation, ending with the counters \<open>copied\<close> and
  \<open>skipped\<close>. Then the run shows, after the loop: if \<open>copied\<close> is positive, the one
  message \<open>Copied {copied} item(s) to {displayPath}.\<close>, followed by
  \<open>Skipped {skipped}.\<close> exactly when \<open>skipped\<close> is not zero; if \<open>copied\<close> is zero
  and \<open>skipped\<close> is positive, the one message \<open>All {skipped} item(s) were skipped.\<close>;
  and if both are zero, nothing. The counters add up to the length of the list, so both
  are zero exactly for the empty list.
\<close>

theorem C6_completion_message:
  assumes "getDestinationUri H w = (Some d, w1)"
    and "ensureDestinationDirectory H d w1 = (True, w2)"
    and "copyLoop H d uris 0 0 w2 = (Some (copied, skipped), w3)"
  shows "fs (copyToDestination H uris w) = fs w3
       \<and> trace (copyToDestination H uris w)
           = trace w3 @
             (if copied > 0 then
                [ShowInformationMessage
                   (''Copied '' @ string_of_nat copied @ '' item(s) to ''
                      @ formatDestinationForDisplay (os_homedir H) d @ ''.''
                      @ (if skipped \<noteq> 0 then '' Skipped '' @ string_of_nat skipped @ ''.'' else []))]
              else if skipped > 0 then
                [ShowInformationMessage (''All '' @ string_of_nat skipped @ '' item(s) were skipped.'')]
              else [])
       \<and> copied + skipped = length uris
       \<and> (copied = 0 \<and> skipped = 0) = (uris = [])"
proof -
  have total: "copied + skipped = length uris"
    using copyLoop_counts [OF assms(3)] by simp
  have empty: "(copied = 0 \<and> skipped = 0) = (uris = [])"
    using total by auto
  have run: "copyToDestination H uris w =
      (if copied > 0 then
         emit (ShowInformationMessage
                 (if skipped > 0
                  then copiedSkippedMessage copied (formatDestinationForDisplay (os_homedir H) d) skipped
                  else copiedMessage copied (formatDestinationForDisplay (os_homedir H) d))) w3
       else if skipped > 0 then emit (ShowInformationMessage (allSkippedMessage skipped)) w3
       else w3)"
    by (simp add: copyToDestination_loop [OF assms(1,2)] assms(3))
  have "fs (copyToDestination H uris w) = fs w3"
    by (simp add: run)
  moreover have "trace (copyToDestination H uris w)
           = trace w3 @
             (if copied > 0 then
                [ShowInformationMessage
                   (''Copied '' @ string_of_nat copied @ '' item(s) to ''
                      @ formatDestinationForDisplay (os_homedir H) d @ ''.''
                      @ (if skipped \<noteq> 0 then '' Skipped '' @ string_of_nat skipped @ ''.'' else []))]
              else if skipped > 0 then
                [ShowInformationMessage (''All '' @ string_of_nat skipped @ '' item(s) were skipped.'')]
              else [])"
    by (simp add: run copiedMessage_def copiedSkippedMessage_def allSkippedMessage_def)
  ultimately show ?thesis
    using total empty by blast
qed

text \<open>
  Two items into \<open>~/utils\<close>: the first is new, the second meets the \<open>b.txt\<close> already
  there and the user presses Skip. Then the second item alone, and the empty list.
\<close>

theorem C6_completion_message_witness:
  "trace (copyToDestination demo_host [''/src/a.txt'', ''/src/b.txt''] (start demo_fs [Some ''Skip'']))
     = [Stat ''/home/user/utils'',
        Stat ''/home/user/utils/a.txt'',
        Copy ''/src/a.txt'' ''/home/user/utils/a.txt'' True,
        Stat ''/home/user/utils/b.txt'',
        ShowWarningMessage (overwriteMessage ''b.txt'' ''/home/user/utils'') True overwriteButtons,
        ShowInformationMessage ''Copied 1 item(s) to ~/utils. Skipped 1.'']
   \<and> trace (copyToDestination demo_host [''/src/b.txt''] (start demo_fs [Some ''Skip'']))
       = [Stat ''/home/user/utils'',
          Stat ''/home/user/utils/b.txt'',
          ShowWarningMessage (overwriteMessage ''b.txt'' ''/home/user/utils'') True overwriteButtons,
          ShowInformationMessage ''All 1 item(s) were skipped.'']
   \<and> trace (copyToDestination demo_host [] (start demo_fs [])) = [Stat ''/home/user/utils'']"
proof -
  let ?w = "start demo_fs [Some ''Skip'']"
  let ?d = "''/home/user/utils''"
  let ?uris = "[''/src/a.txt'', ''/src/b.txt'']"
  let ?w2 = "emit (Stat ?d) ?w"
  let ?w3 = "snd (copyLoop demo_host ?d ?uris 0 0 ?w2)"
  let ?v3 = "snd (copyLoop demo_host ?d [''/src/b.txt''] 0 0 ?w2)"
  let ?e = "start demo_fs []"
  have dest: "getDestinationUri demo_host ?w = (Some ?d, ?w)"
    by (simp add: host_eval path_eval run_eval)
  have ensured: "ensureDestinationDirectory demo_host ?d ?w = (True, ?w2)"
    by (simp add: host_eval run_eval)
  have home: "formatDestinationForDisplay (os_homedir demo_host) ?d = ''~/utils''"
    by (simp add: host_eval path_eval)
  have "fst (copyLoop demo_host ?d ?uris 0 0 ?w2) = Some (1, 1)"
    by (simp add: host_eval path_eval run_eval)
  then have pass: "copyLoop demo_host ?d ?uris 0 0 ?w2 = (Some (1, 1), ?w3)"
    by (metis prod.collapse)
  have before: "trace ?w3
      = [Stat ?d, Stat ''/home/user/utils/a.txt'',
         Copy ''/src/a.txt'' ''/home/user/utils/a.txt'' True,
         Stat ''/home/user/utils/b.txt'',
         ShowWarningMessage (overwriteMessage ''b.txt'' ?d) True overwriteButtons]"
    by (simp add: host_eval path_eval run_eval)
  have mixed: "trace (copyToDestination demo_host ?uris ?w)
      = [Stat ?d, Stat ''/home/user/utils/a.txt'',
         Copy ''/src/a.txt'' ''/home/user/utils/a.txt'' True,
         Stat ''/home/user/utils/b.txt'',
         ShowWarningMessage (overwriteMessage ''b.txt'' ?d) True overwriteButtons,
         ShowInformationMessage ''Copied 1 item(s) to ~/utils. Skipped 1.'']"
    using C6_completion_message [OF dest ensured pass]
    by (simp add: home before digit_def string_of_nat.simps del: copyLoop.simps)
  have "fst (copyLoop demo_host ?d [''/src/b.txt''] 0 0 ?w2) = Some (0, 1)"
    by (simp add: host_eval path_eval run_eval)
  then have pass': "copyLoop demo_host ?d [''/src/b.txt''] 0 0 ?w2 = (Some (0, 1), ?v3)"
    by (metis prod.collapse)
  have before': "trace ?v3
      = [Stat ?d, Stat ''/home/user/utils/b.txt'',
         ShowWarningMessage (overwriteMessage ''b.txt'' ?d) True overwriteButtons]"
    by (simp add: host_eval path_eval run_eval)
  have skipped: "trace (copyToDestination demo_host [''/src/b.txt''] ?w)
      = [Stat ?d, Stat ''/home/user/utils/b.txt'',
         ShowWarningMessage (overwriteMessage ''b.txt'' ?d) True overwriteButtons,
         ShowInformationMessage ''All 1 item(s) were skipped.'']"
    using C6_completion_message [OF dest ensured pass']
    by (simp add: before' digit_def string_of_nat.simps del: copyLoop.simps)
  have dest0: "getDestinationUri demo_host ?e = (Some ?d, ?e)"
    by (simp add: host_eval path_eval run_eval)
  have ensured0: "ensureDestinationDirectory demo_host ?d ?e = (True, emit (Stat ?d) ?e)"
    by (simp add: host_eval run_eval)
  have pass0: "copyLoop demo_host ?d [] 0 0 (emit (Stat ?d) ?e) = (Some (0, 0), emit (Stat ?d) ?e)"
    by simp
  have none: "trace (copyToDestination demo_host [] ?e) = [Stat ?d]"
    using C6_completion_message [OF dest0 ensured0 pass0]
    by (simp add: start_def)
  show ?thesis
    using mixed skipped none by blast
qed

section \<open>Skipping at a conflict\<close>

text \<open>
  C7. For every item whose target exists, if the conflict dialog returns \<open>Skip\<close>, then
  the item's result is \<open>Skipped\<close>, the file system is left exactly as it was (the host
  is asked for the existence check and the dialog only, never for a copy), and the loop
  adds one to the skipped counter and leaves the copied counter alone.
\<close>

theorem C7_skip_leaves_target:
  assumes "fs_stat H (fs w) (itemTarget d u)"
    and "fst (promptOverwrite (path_basename u) d (emit (Stat (itemTarget d u)) w)) = Skip"
  shows "fst (copySingleItem H u d w) = Skipped
       \<and> fs (snd (copySingleItem H u d w)) = fs w
       \<and> trace (snd (copySingleItem H u d w))
           = trace w @
             [Stat (itemTarget d u),
              ShowWarningMessage (overwriteMessage (path_basename u) d) True overwriteButtons]
       \<and> copyLoop H d (u # us) c k w = copyLoop H d us c (k + 1) (snd (copySingleItem H u d w))"
  by (simp add: copySingleItem_skip [OF assms])

theorem C7_skip_leaves_target_witness:
  "fs_stat demo_host demo_fs (itemTarget ''/home/user/utils'' ''/src/b.txt'')
   \<and> fst (copySingleItem demo_host ''/src/b.txt'' ''/home/user/utils'' (start demo_fs [Some ''Skip'']))
       = Skipped
   \<and> fs (snd (copySingleItem demo_host ''/src/b.txt'' ''/home/user/utils''
                (start demo_fs [Some ''Skip''])))
       = demo_fs
   \<and> map_of (fs (snd (copySingleItem demo_host ''/src/b.txt'' ''/home/user/utils''
                        (start demo_fs [Some ''Skip''])))) ''/home/user/utils/b.txt''
       = Some (File ''old'')
   \<and> fst (copyLoop demo_host ''/home/user/utils'' [''/src/b.txt''] 0 0 (start demo_fs [Some ''Skip'']))
       = Some (0, 1)"
proof -
  let ?w = "start demo_fs [Some ''Skip'']"
  have conflict: "fs_stat demo_host (fs ?w) (itemTarget ''/home/user/utils'' ''/src/b.txt'')"
    by (simp add: host_eval path_eval)
  have skip: "fst (promptOverwrite (path_basename ''/src/b.txt'') ''/home/user/utils''
                (emit (Stat (itemTarget ''/home/user/utils'' ''/src/b.txt'')) ?w)) = Skip"
    by (simp add: promptOverwrite_def emit_def start_def Let_def)
  have old: "map_of demo_fs ''/home/user/utils/b.txt'' = Some (File ''old'')"
    by (simp add: demo_fs_def)
  show ?thesis
    using C7_skip_leaves_target [OF conflict skip, of "[]" 0 0] conflict old
    by (simp add: start_def)
qed

section \<open>Ensuring the destination\<close>

text \<open>
  C8. \<open>ensureDestinationDirectory\<close> has three outcomes. If the metadata of the
  destination can be read it returns true at once: the read is its only host call, so
  nothing is created and nothing is shown, and calling it on an existing destination any
  number of times changes nothing. If the read fails it attempts the creation, once, and
  returns true when the creation resolves. It returns false exactly when the read fails
  and the creation throws, and then it shows the one error message
  \<open>Failed to create destination directory: {reason}\<close>.
\<close>

theorem C8_ensure_destination_outcomes:
  "(fs_stat H (fs w) d \<longrightarrow> ensureDestinationDirectory H d w = (True, emit (Stat d) w))
   \<and> (\<not> fs_stat H (fs w) d \<and> fst (fs_createDirectory H (fs w) d) = None \<longrightarrow>
        ensureDestinationDirectory H d w
          = (True, (emit (CreateDirectory d) (emit (Stat d) w))
                     \<lparr>fs := snd (fs_createDirectory H (fs w) d)\<rparr>))
   \<and> (fst (ensureDestinationDirectory H d w) = False
        \<longleftrightarrow> \<not> fs_stat H (fs w) d \<and> fst (fs_createDirectory H (fs w) d) \<noteq> None)
   \<and> (\<forall>reason. \<not> fs_stat H (fs w) d \<and> fst (fs_createDirectory H (fs w) d) = Some reason \<longrightarrow>
        fst (ensureDestinationDirectory H d w) = False
        \<and> fs (snd (ensureDestinationDirectory H d w)) = snd (fs_createDirectory H (fs w) d)
        \<and> trace (snd (ensureDestinationDirectory H d w))
             = trace w @
               [Stat d, CreateDirectory d,
                ShowErrorMessage (''Failed to create destination directory: '' @ reason)])"
  by (auto simp: ensureDestinationDirectory_def Let_def emit_def
      split: prod.splits option.splits)

text \<open>
  An existing folder, a folder that has to be created, and a folder below a regular
  file, whose creation throws.
\<close>

theorem C8_ensure_destination_outcomes_witness:
  "ensureDestinationDirectory demo_host ''/home/user/utils'' (start demo_fs [])
     = (True, \<lparr>fs = demo_fs, answers = [], trace = [Stat ''/home/user/utils'']\<rparr>)
   \<and> ensureDestinationDirectory demo_host ''/home/user/new'' (start demo_fs [])
       = (True, \<lparr>fs = (''/home/user/new'', Directory) # demo_fs, answers = [],
                 trace = [Stat ''/home/user/new'', CreateDirectory ''/home/user/new'']\<rparr>)
   \<and> fst (ensureDestinationDirectory demo_host ''/src/a.txt/out'' (start demo_fs [])) = False
   \<and> fs (snd (ensureDestinationDirectory demo_host ''/src/a.txt/out'' (start demo_fs []))) = demo_fs
   \<and> trace (snd (ensureDestinationDirectory demo_host ''/src/a.txt/out'' (start demo_fs [])))
       = [Stat ''/src/a.txt/out'', CreateDirectory ''/src/a.txt/out'',
          ShowErrorMessage ''Failed to create destination directory: Error: ENOTDIR'']"
proof -
  let ?w = "start demo_fs []"
  have present: "fs_stat demo_host (fs ?w) ''/home/user/utils''"
    by (simp add: host_eval)
  have absent: "\<not> fs_stat demo_host (fs ?w) ''/home/user/new''
      \<and> fst (fs_createDirectory demo_host (fs ?w) ''/home/user/new'') = None"
    by (simp add: host_eval)
  have blocked: "\<not> fs_stat demo_host (fs ?w) ''/src/a.txt/out''
      \<and> fst (fs_createDirectory demo_host (fs ?w) ''/src/a.txt/out'') = Some ''Error: ENOTDIR''"
    by (simp add: host_eval)
  have first: "ensureDestinationDirectory demo_host ''/home/user/utils'' ?w
      = (True, emit (Stat ''/home/user/utils'') ?w)"
    using C8_ensure_destination_outcomes [of demo_host ?w "''/home/user/utils''"] present
    by blast
  have second: "ensureDestinationDirectory demo_host ''/home/user/new'' ?w
      = (True, (emit (CreateDirectory ''/home/user/new'') (emit (Stat ''/home/user/new'') ?w))
                 \<lparr>fs := snd (fs_createDirectory demo_host (fs ?w) ''/home/user/new'')\<rparr>)"
    using C8_ensure_destination_outcomes [of demo_host ?w "''/home/user/new''"] absent
    by blast
  have third: "fst (ensureDestinationDirectory demo_host ''/src/a.txt/out'' ?w) = False
      \<and> fs (snd (ensureDestinationDirectory demo_host ''/src/a.txt/out'' ?w))
          = snd (fs_createDirectory demo_host (fs ?w) ''/src/a.txt/out'')
      \<and> trace (snd (ensureDestinationDirectory demo_host ''/src/a.txt/out'' ?w))
          = trace ?w @
            [Stat ''/src/a.txt/out'', CreateDirectory ''/src/a.txt/out'',
             ShowErrorMessage (''Failed to create destination directory: '' @ ''Error: ENOTDIR'')]"
    using C8_ensure_destination_outcomes [of demo_host ?w "''/src/a.txt/out''"] blocked
    by blast
  show ?thesis
    using first second third
    by (simp add: host_eval emit_def)
qed

section \<open>A destination that is not a directory\<close>

text \<open>
  C9. \<open>ensureDestinationDirectory\<close> returns true whenever \<open>stat\<close> on the destination
  resolves: it asks the host for nothing else, so what kind of entry lies there plays no
  part and no creation is attempted. The batch then proceeds: the next host call is the
  existence check of the first item's target below the destination, and when that target
  does not exist the call after it is the copy to that target. The instance that follows
  the theorem has a regular file at the destination path.
\<close>

theorem C9_existing_entry_accepted:
  assumes "getDestinationUri H w = (Some d, w1)"
    and "fs_stat H (fs w1) d"
  shows "ensureDestinationDirectory H d w1 = (True, emit (Stat d) w1)
       \<and> (\<exists>rest. trace (copyToDestination H (u # us) w)
                    = trace w1 @ Stat d # Stat (itemTarget d u) # rest)
       \<and> (\<not> fs_stat H (fs w1) (itemTarget d u) \<longrightarrow>
            (\<exists>rest. trace (copyToDestination H (u # us) w)
                    = trace w1 @ Stat d # Stat (itemTarget d u) # Copy u (itemTarget d u) True # rest))"
proof -
  let ?w2 = "emit (Stat d) w1"
  have en: "ensureDestinationDirectory H d w1 = (True, ?w2)"
    using assms(2) by (simp add: ensureDestinationDirectory_def Let_def)
  note run = copyToDestination_loop [OF assms(1) en]
  obtain res w3 where lp: "copyLoop H d (u # us) 0 0 ?w2 = (res, w3)"
    by (cases "copyLoop H d (u # us) 0 0 ?w2")
  have final: "\<exists>more. trace (copyToDestination H (u # us) w) = trace w3 @ more"
    unfolding run lp by (cases res) auto
  obtain evs where evs: "trace w3 = trace ?w2 @ Stat (itemTarget d u) # evs"
    using copyLoop_trace_first [of H d u us 0 0 ?w2] lp by auto
  have first: "\<exists>rest. trace (copyToDestination H (u # us) w)
                    = trace w1 @ Stat d # Stat (itemTarget d u) # rest"
    using final evs by auto
  have second: "\<exists>rest. trace (copyToDestination H (u # us) w)
                    = trace w1 @ Stat d # Stat (itemTarget d u) # Copy u (itemTarget d u) True # rest"
    if fresh: "\<not> fs_stat H (fs w1) (itemTarget d u)"
  proof -
    obtain r wa where step: "copySingleItem H u d ?w2 = (r, wa)"
      by (cases "copySingleItem H u d ?w2")
    obtain e1 where e1:
      "trace wa = trace ?w2 @ [Stat (itemTarget d u)] @ Copy u (itemTarget d u) True # e1"
      using tryCopy_trace [of H u "itemTarget d u" "path_basename u" "emit (Stat (itemTarget d u)) ?w2"]
        step fresh by (auto simp: copySingleItem_fresh)
    obtain e2 where "trace (snd (copyLoop H d us 1 0 wa)) = trace wa @ e2"
      using copyLoop_trace by blast
    moreover obtain e3 where "trace (snd (copyLoop H d us 0 1 wa)) = trace wa @ e3"
      using copyLoop_trace by blast
    ultimately have "\<exists>e. trace w3 = trace wa @ e"
      using lp step by (cases r) auto
    then show ?thesis
      using final e1 by auto
  qed
  show ?thesis
    using en first second by blast
qed

text \<open>
  The setting names \<open>/src/a.txt\<close>, a regular file. The destination is accepted, nothing
  is created, and the copy is attempted below the file.
\<close>

theorem C9_existing_entry_accepted_witness:
  "map_of demo_fs ''/src/a.txt'' = Some (File ''A'')
   \<and> ensureDestinationDirectory (simple_host ''/home/user'' ''/src/a.txt'' None) ''/src/a.txt''
        (start demo_fs [])
       = (True, emit (Stat ''/src/a.txt'') (start demo_fs []))
   \<and> trace (copyToDestination (simple_host ''/home/user'' ''/src/a.txt'' None) [''/src/b.txt'']
               (start demo_fs []))
       = [Stat ''/src/a.txt'',
          Stat ''/src/a.txt/b.txt'',
          Copy ''/src/b.txt'' ''/src/a.txt/b.txt'' True,
          ShowErrorMessage (''Failed to copy '' @ [dquote] @ ''b.txt'' @ [dquote] @ '': Error: ENOTDIR''),
          ShowInformationMessage ''All 1 item(s) were skipped.'']"
proof -
  let ?H = "simple_host ''/home/user'' ''/src/a.txt'' None"
  let ?w = "start demo_fs []"
  have regular: "map_of demo_fs ''/src/a.txt'' = Some (File ''A'')"
    by (simp add: demo_fs_def)
  have dest: "getDestinationUri ?H ?w = (Some ''/src/a.txt'', ?w)"
    by (simp add: host_eval path_eval run_eval)
  have present: "fs_stat ?H (fs ?w) ''/src/a.txt''"
    by (simp add: host_eval)
  have run: "trace (copyToDestination ?H [''/src/b.txt''] ?w)
       = [Stat ''/src/a.txt'',
          Stat ''/src/a.txt/b.txt'',
          Copy ''/src/b.txt'' ''/src/a.txt/b.txt'' True,
          ShowErrorMessage (''Failed to copy '' @ [dquote] @ ''b.txt'' @ [dquote] @ '': Error: ENOTDIR''),
          ShowInformationMessage ''All 1 item(s) were skipped.'']"
    by (simp add: host_eval path_eval run_eval)
  show ?thesis
    using C9_existing_entry_accepted [OF dest present, of "''/src/b.txt''" "[]"] regular run
    by simp
qed

section \<open>The command handler\<close>

text \<open>
  C10. In the command handler a defined multi-selection list is the list of targets,
  whatever the single uri is; without one, the targets are the single uri alone, or
  nothing when that is undefined too. When the targets are empty the handler shows the
  warning \<open>No files or folders selected.\<close> and does nothing else; otherwise it is the
  batch copy of the targets. The warning is among the host calls of the handler exactly
  when the targets are empty, and that includes a defined empty list next to a defined
  single uri.
\<close>

theorem C10_selection_precedence:
  "(\<forall>list. uris = Some list \<longrightarrow> selectionTargets uri uris = list)
   \<and> (uris = None \<longrightarrow> selectionTargets uri uris = (case uri of Some u \<Rightarrow> [u] | None \<Rightarrow> []))
   \<and> (selectionTargets uri uris = [] \<longrightarrow>
        commandHandler H uri uris w
          = emit (ShowWarningMessage ''No files or folders selected.'' False []) w)
   \<and> (selectionTargets uri uris \<noteq> [] \<longrightarrow>
        commandHandler H uri uris w = copyToDestination H (selectionTargets uri uris) w)
   \<and> (\<exists>evs. trace (commandHandler H uri uris w) = trace w @ evs
          \<and> (ShowWarningMessage ''No files or folders selected.'' False [] \<in> set evs
               \<longleftrightarrow> selectionTargets uri uris = []))
   \<and> commandHandler H (Some single) (Some []) w
        = emit (ShowWarningMessage ''No files or folders selected.'' False []) w"
proof -
  have shown: "\<exists>evs. trace (commandHandler H uri uris w) = trace w @ evs
          \<and> (ShowWarningMessage ''No files or folders selected.'' False [] \<in> set evs
               \<longleftrightarrow> selectionTargets uri uris = [])"
  proof (cases "selectionTargets uri uris = []")
    case True
    then show ?thesis
      by (simp add: commandHandler_def Let_def noSelectionWarning_def)
  next
    case False
    obtain evs where "trace (copyToDestination H (selectionTargets uri uris) w) = trace w @ evs"
      "noSelectionWarning \<notin> set evs"
      using copyToDestination_trace by blast
    then show ?thesis
      using False by (simp add: commandHandler_def Let_def noSelectionWarning_def)
  qed
  show ?thesis
    using shown
    by (simp add: commandHandler_def selectionTargets_def Let_def noSelectionWarning_def)
qed

text \<open>
  A multi-selection of two files next to a single uri, a single uri alone, and an empty
  multi-selection next to a single uri.
\<close>

theorem C10_selection_precedence_witness:
  "selectionTargets (Some ''/src/a.txt'') (Some [''/src/b.txt'', ''/src/a.txt''])
     = [''/src/b.txt'', ''/src/a.txt'']
   \<and> selectionTargets (Some ''/src/a.txt'') None = [''/src/a.txt'']
   \<and> commandHandler demo_host (Some ''/src/a.txt'') None (start demo_fs [])
       = copyToDestination demo_host [''/src/a.txt''] (start demo_fs [])
   \<and> ShowWarningMessage ''No files or folders selected.'' False []
       \<notin> set (trace (commandHandler demo_host (Some ''/src/a.txt'') None (start demo_fs [])))
   \<and> commandHandler demo_host (Some ''/src/a.txt'') (Some []) (start demo_fs [])
       = \<lparr>fs = demo_fs, answers = [],
          trace = [ShowWarningMessage ''No files or folders selected.'' False []]\<rparr>"
proof -
  let ?w = "start demo_fs []"
  note alone =
    C10_selection_precedence [of None "Some ''/src/a.txt''" demo_host ?w "''/src/a.txt''"]
  have multi: "selectionTargets (Some ''/src/a.txt'') (Some [''/src/b.txt'', ''/src/a.txt''])
      = [''/src/b.txt'', ''/src/a.txt'']"
    using C10_selection_precedence
      [of "Some [''/src/b.txt'', ''/src/a.txt'']" "Some ''/src/a.txt''" demo_host ?w "''/src/a.txt''"]
    by blast
  have single: "selectionTargets (Some ''/src/a.txt'') None = [''/src/a.txt'']"
    using alone by simp
  then have nonempty: "selectionTargets (Some ''/src/a.txt'') None \<noteq> []"
    by simp
  have batch: "commandHandler demo_host (Some ''/src/a.txt'') None ?w
      = copyToDestination demo_host [''/src/a.txt''] ?w"
    using alone nonempty single by metis
  obtain evs where evs: "trace (commandHandler demo_host (Some ''/src/a.txt'') None ?w) = trace ?w @ evs"
    "ShowWarningMessage ''No files or folders selected.'' False [] \<notin> set evs"
    using alone nonempty by blast
  have quiet: "ShowWarningMessage ''No files or folders selected.'' False []
      \<notin> set (trace (commandHandler demo_host (Some ''/src/a.txt'') None ?w))"
    using evs by (simp add: start_def)
  have empty: "commandHandler demo_host (Some ''/src/a.txt'') (Some []) ?w
      = \<lparr>fs = demo_fs, answers = [],
         trace = [ShowWarningMessage ''No files or folders selected.'' False []]\<rparr>"
    using alone by (simp add: start_def emit_def)
  show ?thesis
    using multi single batch quiet empty by blast
qed

end
